theory Spec2Isabelle
  imports Complex_Main
begin

section \<open>Data model of \<^verbatim>\<open>image_download/make_examples.py\<close>\<close>

text \<open>
  The script works on georeferenced raster tiles (read through GDAL), vector frames
  (GeoDataFrames) and the file system. Everything outside the script is an explicit
  input of the model:
  \<^item> the file system is a record \<open>env\<close>: directory listings, the rasters GDAL can open and
    the vector files \<^verbatim>\<open>gpd.read_file\<close> can parse (\<open>None\<close> where the library call fails);
  \<^item> coordinates are exact rationals; the rounding error of the double arithmetic of the
    source is not represented;
  \<^item> every exception of the source is a value of \<open>error\<close>, returned as \<open>Inl\<close>.
\<close>

datatype error =
    TypeError | ValueError | OverflowError | AttributeError | FileNotFoundError | DriverError

type_synonym point = "rat \<times> rat"

text \<open>\<^verbatim>\<open>shapely.geometry.Polygon(shell)\<close>: the exterior ring as it was passed.\<close>

datatype polygon = Polygon "point list"

text \<open>The entry \<^verbatim>\<open>"cornerCoordinates"\<close> of \<^verbatim>\<open>gdal.Info(file, format="json")\<close>.\<close>

record corner_coordinates =
  upperLeft :: point
  lowerLeft :: point
  lowerRight :: point
  upperRight :: point

text \<open>The six entries of \<^verbatim>\<open>info["geoTransform"]\<close>; \<open>gt_i\<close> is \<^verbatim>\<open>transform[i]\<close>.\<close>

record geo_transform =
  gt_0 :: rat
  gt_1 :: rat
  gt_2 :: rat
  gt_3 :: rat
  gt_4 :: rat
  gt_5 :: rat

text \<open>
  A raster data set: its metadata, its size in pixels and its bands. A band maps a column
  and a row to the stored sample. \<^verbatim>\<open>ds.GetRasterBand(i)\<close> is the \<open>i\<close>-th entry of
  \<open>raster_bands\<close>, counted from 1.
\<close>

record raster =
  cornerCoordinates :: corner_coordinates
  geoTransform :: geo_transform
  RasterXSize :: int
  RasterYSize :: int
  raster_bands :: "(int \<Rightarrow> int \<Rightarrow> nat) list"

text \<open>A row of the coverage frame: columns \<^verbatim>\<open>filename\<close> and \<^verbatim>\<open>geometry\<close>.\<close>

record coverage_record =
  cov_filename :: string
  cov_geometry :: polygon

text \<open>The coverage frame returned by \<^verbatim>\<open>make_polygon_list\<close>, with the EPSG code set on it.\<close>

record coverage_index =
  cov_rows :: "coverage_record list"
  cov_crs :: nat

text \<open>A row of the asset frame: the column \<^verbatim>\<open>id\<close> and the point geometry.\<close>

record asset =
  asset_id :: int
  asset_geometry :: point

record env =
  listdir :: "string \<Rightarrow> string list option"
  tiles :: "string \<Rightarrow> raster option"
  coverage_files :: "string \<Rightarrow> coverage_record list option"
  asset_files :: "string \<Rightarrow> asset list option"

section \<open>The coverage indexer: \<^verbatim>\<open>make_polygon_list\<close>\<close>

text \<open>\<^verbatim>\<open>s.endswith(suffix)\<close>\<close>

definition endswith :: "string \<Rightarrow> string \<Rightarrow> bool" where
  "endswith s suffix \<longleftrightarrow>
     length suffix \<le> length s \<and> drop (length s - length suffix) s = suffix"

text \<open>\<^verbatim>\<open>os.path.join(a, b)\<close> of \<^verbatim>\<open>posixpath\<close>, for two components.\<close>

definition os_path_join :: "string \<Rightarrow> string \<Rightarrow> string" where
  "os_path_join a b =
     (if b \<noteq> [] \<and> hd b = CHR ''/'' then b
      else if a = [] \<or> last a = CHR ''/'' then a @ b
      else a @ ''/'' @ b)"

text \<open>
  Lines 42 to 46: \<^verbatim>\<open>gpd.read_file(resume_file)\<close> inside \<^verbatim>\<open>try\<close>; when it raises (also for
  \<^verbatim>\<open>resume_file=None\<close>) the frame starts empty.
\<close>

definition loaded_index :: "env \<Rightarrow> string option \<Rightarrow> coverage_record list" where
  "loaded_index e resume_file =
     (case resume_file of
        None \<Rightarrow> []
      | Some rf \<Rightarrow> (case coverage_files e rf of None \<Rightarrow> [] | Some cov \<Rightarrow> cov))"

text \<open>Lines 52 to 57: the polygon of the four corners.\<close>

definition corner_polygon :: "corner_coordinates \<Rightarrow> polygon" where
  "corner_polygon corners =
     Polygon [upperLeft corners, upperRight corners, lowerRight corners, lowerLeft corners]"

text \<open>
  Lines 49 to 58, the loop over \<^verbatim>\<open>tif_files\<close>. \<^verbatim>\<open>gdal.Info\<close> returns \<^verbatim>\<open>None\<close> for a file
  it cannot open, and subscripting \<^verbatim>\<open>None\<close> raises \<^verbatim>\<open>TypeError\<close>, which nothing catches.
\<close>

fun add_tiles :: "env \<Rightarrow> string list \<Rightarrow> coverage_record list \<Rightarrow> error + coverage_record list"
where
  "add_tiles e [] coverage = Inr coverage"
| "add_tiles e (file # files) coverage =
     (case tiles e file of
        None \<Rightarrow> Inl TypeError
      | Some info \<Rightarrow>
          add_tiles e files
            (coverage @
              [\<lparr>cov_filename = file,
                cov_geometry = corner_polygon (cornerCoordinates info)\<rparr>]))"

text \<open>
  Lines 34 to 39 and the function as a whole. Line 60 sets EPSG:4326 on the frame; a frame
  loaded from a GeoJSON file carries that code already, so the call does not raise.
\<close>

definition tif_files :: "string \<Rightarrow> string list \<Rightarrow> string list" where
  "tif_files path entries =
     map (os_path_join path) (filter (\<lambda>filename. endswith filename ''.tif'') entries)"

definition make_polygon_list :: "env \<Rightarrow> string \<Rightarrow> string option \<Rightarrow> error + coverage_index" where
  "make_polygon_list e path resume_file =
     (case listdir e path of
        None \<Rightarrow> Inl FileNotFoundError
      | Some entries \<Rightarrow>
          (case add_tiles e (tif_files path entries) (loaded_index e resume_file) of
             Inl err \<Rightarrow> Inl err
           | Inr coverage \<Rightarrow> Inr \<lparr>cov_rows = coverage, cov_crs = 4326\<rparr>))"

text \<open>
  The property "one record per \<^verbatim>\<open>.tif\<close> entry of the directory, in the order of the listing,
  whose footprint is the polygon of the tile's corners": \<open>rows\<close> and the \<^verbatim>\<open>.tif\<close> entries
  correspond one to one.
\<close>

definition indexes :: "env \<Rightarrow> string \<Rightarrow> string list \<Rightarrow> coverage_record list \<Rightarrow> bool" where
  "indexes e path entries rows \<longleftrightarrow>
     list_all2
       (\<lambda>row filename.
          cov_filename row = os_path_join path filename \<and>
          map_option (\<lambda>info. corner_polygon (cornerCoordinates info))
            (tiles e (os_path_join path filename)) = Some (cov_geometry row))
       rows (filter (\<lambda>filename. endswith filename ''.tif'') entries)"

section \<open>The example extractor: \<^verbatim>\<open>make_examples\<close>\<close>

text \<open>
  Further inputs from outside the script:
  \<^item> \<open>cwd\<close> is \<^verbatim>\<open>os.path.abspath("")\<close>;
  \<^item> \<open>intersects\<close> is the predicate of \<^verbatim>\<open>gpd.sjoin\<close> between a point and a footprint;
  \<^item> \<open>entropy\<close> is the raw output of numpy's global random generator: \<open>entropy k\<close> is what
    the \<open>k\<close>-th call of \<^verbatim>\<open>np.random.randint\<close> consumes.
  The output directory is taken to exist, so that saving a file succeeds. The progress line
  printed on line 204 is not part of the model.
\<close>

record sys =
  cwd :: string
  intersects :: "point \<Rightarrow> polygon \<Rightarrow> bool"
  entropy :: "nat \<Rightarrow> nat"

text \<open>The keyword arguments of \<^verbatim>\<open>make_examples\<close>; \<^verbatim>\<open>max_length=None\<close> is \<open>None\<close>.\<close>

record params =
  img_path :: string
  max_length :: "int option"
  height :: int
  width :: int

text \<open>An argument that is either a path (\<^verbatim>\<open>isinstance(x, str)\<close>) or the frame itself.\<close>

datatype 'a frame_arg = Path string | Frame 'a

text \<open>
  A row of \<^verbatim>\<open>dataset\<close>. The four box columns hold doubles with integral values in the source
  (an integer array plus the array \<^verbatim>\<open>offset\<close> of doubles); they are integers here.
\<close>

record example =
  ex_filename :: string
  ul_x :: int
  ul_y :: int
  lr_x :: int
  lr_y :: int
  ex_geometry :: polygon

text \<open>\<^verbatim>\<open>new_img\<close>: \<open>height\<close> rows of \<open>width\<close> pixels of three \<^verbatim>\<open>uint8\<close> channels.\<close>

type_synonym image = "(nat \<times> nat \<times> nat) list list"

text \<open>
  A call of \<^verbatim>\<open>dataset.to_file\<close>, with the path and the rows written. \<open>Checkpoint_write\<close> is
  lines 196 and 197, where the frame is first given the EPSG code; \<open>Final_write\<close> is line
  201, where the frame is written as it stands.
\<close>

datatype file_write =
    Checkpoint_write string nat "example list"
  | Final_write string "example list"

fun written_rows :: "file_write \<Rightarrow> example list" where
  "written_rows (Checkpoint_write file epsg rows) = rows"
| "written_rows (Final_write file rows) = rows"

fun written_path :: "file_write \<Rightarrow> string" where
  "written_path (Checkpoint_write file epsg rows) = file"
| "written_path (Final_write file rows) = file"

text \<open>
  The state of a run: the frame \<^verbatim>\<open>dataset\<close>, the image files saved so far, the calls of
  \<^verbatim>\<open>to_file\<close> so far (each overwrites the file of the one before) and the number of values
  taken from the random generator.
\<close>

record state =
  dataset :: "example list"
  images :: "(string \<times> image) list"
  geojson :: "file_write list"
  draws :: nat

text \<open>
  How a loop body ends: \<open>Next\<close> goes on with the next row; \<open>Returned v\<close> is a
  \<^verbatim>\<open>return\<close> statement with value \<open>v\<close>, where \<open>None\<close> is Python's \<^verbatim>\<open>None\<close>.
\<close>

datatype outcome = Next state | Returned "example list option" state

fun state_of :: "outcome \<Rightarrow> state" where
  "state_of (Next s) = s"
| "state_of (Returned v s) = s"

subsection \<open>Library functions\<close>

text \<open>\<^verbatim>\<open>str(n)\<close> for an integer.\<close>

fun digits :: "nat \<Rightarrow> string" where
  "digits n =
     (if n < 10 then [''0123456789'' ! n]
      else digits (n div 10) @ [''0123456789'' ! (n mod 10)])"

declare digits.simps [simp del]

definition str_int :: "int \<Rightarrow> string" where
  "str_int i = (if i < 0 then ''-'' @ digits (nat (- i)) else digits (nat i))"

text \<open>\<^verbatim>\<open>np.around\<close>: to the nearest integer, a half to the even neighbour.\<close>

definition around :: "rat \<Rightarrow> int" where
  "around q =
     (let f = \<lfloor>q\<rfloor>; d = q - of_int f
      in if d < 1 / 2 then f else if 1 / 2 < d then f + 1 else if even f then f else f + 1)"

text \<open>
  A double that holds a pixel index: an integral value, an infinity or a NaN (a pixel size
  of zero gives the last two, with a warning and no exception).
\<close>

datatype float_pixel = Finite int | Infinite | NaN

text \<open>\<^verbatim>\<open>np.around((coord - origin) / pixel_size)\<close>, one component of line 139.\<close>

definition geo_pixel :: "rat \<Rightarrow> rat \<Rightarrow> rat \<Rightarrow> float_pixel" where
  "geo_pixel coord origin pixel_size =
     (if pixel_size \<noteq> 0 then Finite (around ((coord - origin) / pixel_size))
      else if coord - origin = 0 then NaN else Infinite)"

fun shift :: "float_pixel \<Rightarrow> int \<Rightarrow> float_pixel" where
  "shift (Finite v) d = Finite (v - d)"
| "shift Infinite d = Infinite"
| "shift NaN d = NaN"

text \<open>\<^verbatim>\<open>int(v)\<close> of a double.\<close>

fun py_int :: "float_pixel \<Rightarrow> error + int" where
  "py_int (Finite v) = Inr v"
| "py_int Infinite = Inl OverflowError"
| "py_int NaN = Inl ValueError"

text \<open>
  \<^verbatim>\<open>np.random.randint(low, high)\<close> returns an integer of the half-open interval from \<open>low\<close>
  (included) to \<open>high\<close> (excluded) and raises \<^verbatim>\<open>ValueError\<close> when \<open>low >= high\<close>. The
  argument \<open>r\<close> is the generator's raw output, reduced into the interval.
\<close>

definition randint :: "int \<Rightarrow> int \<Rightarrow> nat \<Rightarrow> error + int" where
  "randint low high r =
     (if low < high then Inr (low + int r mod (high - low)) else Inl ValueError)"

text \<open>
  \<^verbatim>\<open>ds.GetRasterBand(i)\<close>: \<^verbatim>\<open>None\<close> for a band the data set does not have.
\<close>

definition GetRasterBand :: "raster \<Rightarrow> nat \<Rightarrow> (int \<Rightarrow> int \<Rightarrow> nat) option" where
  "GetRasterBand ds i =
     (if 1 \<le> i \<and> i \<le> length (raster_bands ds) then Some (raster_bands ds ! (i - 1)) else None)"

text \<open>
  \<^verbatim>\<open>band.ReadAsArray(xoff, yoff, xsize, ysize)\<close>: \<open>ysize\<close> rows of \<open>xsize\<close> samples, or
  \<^verbatim>\<open>None\<close> when the window is not inside the raster.
\<close>

definition ReadAsArray ::
  "raster \<Rightarrow> (int \<Rightarrow> int \<Rightarrow> nat) \<Rightarrow> int \<Rightarrow> int \<Rightarrow> int \<Rightarrow> int \<Rightarrow> nat list list option" where
  "ReadAsArray ds band xoff yoff xsize ysize =
     (if 0 \<le> xoff \<and> 0 \<le> yoff \<and> xoff + xsize \<le> RasterXSize ds \<and> yoff + ysize \<le> RasterYSize ds
      then Some (map (\<lambda>r. map (\<lambda>c. band (xoff + int c) (yoff + int r)) [0..<nat xsize])
                  [0..<nat ysize])
      else None)"

text \<open>\<^verbatim>\<open>gpd.read_file\<close> for an argument given as a path (lines 109 and 110).\<close>

definition resolve :: "(string \<Rightarrow> 'a option) \<Rightarrow> 'a frame_arg \<Rightarrow> error + 'a" where
  "resolve read_file arg =
     (case arg of
        Frame df \<Rightarrow> Inr df
      | Path file \<Rightarrow> (case read_file file of None \<Rightarrow> Inl DriverError | Some df \<Rightarrow> Inr df))"

text \<open>
  \<^verbatim>\<open>gpd.sjoin(assets, coverage, how="inner")\<close>: one row for every pair of an asset and a
  coverage row whose geometries intersect, with the asset's columns and the coverage row's
  \<^verbatim>\<open>filename\<close>.
\<close>

definition sjoin :: "sys \<Rightarrow> asset list \<Rightarrow> coverage_record list \<Rightarrow> (asset \<times> string) list" where
  "sjoin y assets coverage =
     concat (map (\<lambda>a. map (\<lambda>c. (a, cov_filename c))
                        (filter (\<lambda>c. intersects y (asset_geometry a) (cov_geometry c)) coverage))
               assets)"

subsection \<open>The body of the loop over the assets of one tile\<close>

text \<open>Lines 144 and 145: the offset along an axis of \<open>extent\<close> pixels (the width or the height).\<close>

definition draw_offset :: "int \<Rightarrow> nat \<Rightarrow> error + int" where
  "draw_offset extent r = randint ((- extent) div 2 + 8) (extent div 2 - 8) r"

text \<open>The offsets that some output of the generator yields.\<close>

definition possible_offsets :: "int \<Rightarrow> int set" where
  "possible_offsets extent = {off. \<exists>r. draw_offset extent r = Inr off}"

text \<open>
  Lines 137 to 148: the upper left pixel \<open>(x, y)\<close> of the window and the two offsets. The
  first offset consumes \<open>entropy y n\<close>, the second \<open>entropy y (n + 1)\<close>.
\<close>

definition asset_pixel :: "raster \<Rightarrow> asset \<Rightarrow> float_pixel \<times> float_pixel" where
  "asset_pixel ds row =
     (let transform = geoTransform ds; p = asset_geometry row
      in (geo_pixel (fst p) (gt_0 transform) (gt_1 transform),
          geo_pixel (snd p) (gt_3 transform) (gt_5 transform)))"

definition crop_window ::
  "sys \<Rightarrow> params \<Rightarrow> raster \<Rightarrow> asset \<Rightarrow> nat \<Rightarrow> error + (int \<times> int \<times> int \<times> int)" where
  "crop_window y p ds row n =
     (let pixels = asset_pixel ds row;
          px = shift (fst pixels) (width p div 2);
          py = shift (snd pixels) (height p div 2)
      in case draw_offset (width p) (entropy y n) of
           Inl err \<Rightarrow> Inl err
         | Inr off_x \<Rightarrow>
            (case draw_offset (height p) (entropy y (n + 1)) of
               Inl err \<Rightarrow> Inl err
             | Inr off_y \<Rightarrow>
                (case py_int (shift px off_x) of
                   Inl err \<Rightarrow> Inl err
                 | Inr x \<Rightarrow>
                    (case py_int (shift py off_y) of
                       Inl err \<Rightarrow> Inl err
                     | Inr y' \<Rightarrow> Inr (x, y', off_x, off_y)))))"

text \<open>
  Lines 152 to 159: the three bands are read, one after the other, into the channels of
  \<^verbatim>\<open>new_img\<close>. \<open>read_band ds i\<close> is \<^verbatim>\<open>bands[i - 1].ReadAsArray(x, y, width, height)\<close>
  followed by the assignment; a missing band or a window outside the raster raises inside
  \<^verbatim>\<open>try\<close>, and the result is then \<open>None\<close>. The assignment into the \<^verbatim>\<open>uint8\<close> array keeps the
  low eight bits of a sample.
\<close>

definition stack :: "nat list list \<Rightarrow> nat list list \<Rightarrow> nat list list \<Rightarrow> image" where
  "stack r g b =
     map (\<lambda>(rr, gr, br). map (\<lambda>(u, v, w). (u mod 256, v mod 256, w mod 256)) (zip rr (zip gr br)))
       (zip r (zip g b))"

definition read_band :: "raster \<Rightarrow> nat \<Rightarrow> int \<Rightarrow> int \<Rightarrow> int \<Rightarrow> int \<Rightarrow> nat list list option" where
  "read_band ds i x y' w h =
     (case GetRasterBand ds i of None \<Rightarrow> None | Some band \<Rightarrow> ReadAsArray ds band x y' w h)"

definition transfer_pixels :: "raster \<Rightarrow> int \<Rightarrow> int \<Rightarrow> int \<Rightarrow> int \<Rightarrow> image option" where
  "transfer_pixels ds x y' w h =
     (case read_band ds 1 x y' w h of
        None \<Rightarrow> None
      | Some r \<Rightarrow>
          (case read_band ds 2 x y' w h of
             None \<Rightarrow> None
           | Some g \<Rightarrow>
               (case read_band ds 3 x y' w h of
                  None \<Rightarrow> None
                | Some b \<Rightarrow> Some (stack r g b))))"

text \<open>Lines 166 to 172: the footprint of the window.\<close>

definition img_polygon :: "raster \<Rightarrow> int \<Rightarrow> int \<Rightarrow> int \<Rightarrow> int \<Rightarrow> polygon" where
  "img_polygon ds x y' w h =
     (let transform = geoTransform ds;
          cx = gt_0 transform + of_int x * gt_1 transform;
          cy = gt_3 transform + of_int y' * gt_5 transform
      in Polygon
           [(cx, cy),
            (cx + gt_1 transform * of_int w, cy + gt_5 transform * 0),
            (cx + gt_1 transform * of_int w, cy + gt_5 transform * of_int h),
            (cx + gt_1 transform * 0, cy + gt_5 transform * of_int h)])"

text \<open>Lines 175 to 183: the box \<^verbatim>\<open>(ul_x, ul_y, lr_x, lr_y)\<close>.\<close>

definition tower_height :: int where
  "tower_height = 25"

definition tower_width :: int where
  "tower_width = 30"

definition bbox :: "int \<Rightarrow> int \<Rightarrow> int \<Rightarrow> int \<Rightarrow> int \<times> int \<times> int \<times> int" where
  "bbox w h off_x off_y =
     (let ul0 = w div 2 + off_x; ul1 = h div 2 + off_y
      in (ul0 - tower_width div 2, ul1 - tower_height div 2,
          ul0 + tower_width div 2, ul1 + tower_height div 2))"

definition out_dir :: "sys \<Rightarrow> params \<Rightarrow> string" where
  "out_dir y p = cwd y @ img_path p"

definition checkpoint_file :: "sys \<Rightarrow> params \<Rightarrow> string" where
  "checkpoint_file y p = out_dir y p @ ''tower_examples.geojson''"

definition new_row :: "params \<Rightarrow> raster \<Rightarrow> asset \<Rightarrow> int \<Rightarrow> int \<Rightarrow> int \<Rightarrow> int \<Rightarrow> example" where
  "new_row p ds row x y' off_x off_y =
     (case bbox (width p) (height p) off_x off_y of
        (b0, b1, b2, b3) \<Rightarrow>
          \<lparr>ex_filename = str_int (asset_id row), ul_x = b0, ul_y = b1, lr_x = b2, lr_y = b3,
           ex_geometry = img_polygon ds x y' (width p) (height p)\<rparr>)"

text \<open>Lines 194 to 202, after the row has been appended.\<close>

definition save_results :: "sys \<Rightarrow> params \<Rightarrow> state \<Rightarrow> outcome" where
  "save_results y p s =
     (let s' = (if length (dataset s) mod 50 = 0
                then s\<lparr>geojson := geojson s @ [Checkpoint_write (checkpoint_file y p) 4326 (dataset s)]\<rparr>
                else s)
      in if Some (int (length (dataset s'))) = max_length p
         then Returned None (s'\<lparr>geojson := geojson s' @ [Final_write (checkpoint_file y p) (dataset s')]\<rparr>)
         else Next s')"

text \<open>Lines 136 to 204, one pass of the loop over the rows of a tile.\<close>

definition process_row :: "sys \<Rightarrow> params \<Rightarrow> raster \<Rightarrow> state \<Rightarrow> asset \<Rightarrow> error + outcome" where
  "process_row y p ds s row =
     (case crop_window y p ds row (draws s) of
        Inl err \<Rightarrow> Inl err
      | Inr (x, y', off_x, off_y) \<Rightarrow>
          (let s1 = s\<lparr>draws := draws s + 2\<rparr>
           in case transfer_pixels ds x y' (width p) (height p) of
                None \<Rightarrow> Inr (Next s1)
              | Some new_img \<Rightarrow>
                  Inr (save_results y p
                    (s1\<lparr>images := images s1 @
                           [(out_dir y p @ str_int (asset_id row) @ ''.png'', new_img)],
                        dataset := dataset s1 @ [new_row p ds row x y' off_x off_y]\<rparr>))))"

subsection \<open>The loops and the function\<close>

fun process_rows :: "sys \<Rightarrow> params \<Rightarrow> raster \<Rightarrow> state \<Rightarrow> asset list \<Rightarrow> error + outcome" where
  "process_rows y p ds s [] = Inr (Next s)"
| "process_rows y p ds s (row # rows) =
     (case process_row y p ds s row of
        Inl err \<Rightarrow> Inl err
      | Inr (Returned v s') \<Rightarrow> Inr (Returned v s')
      | Inr (Next s') \<Rightarrow> process_rows y p ds s' rows)"

text \<open>
  Lines 121 to 134: the loop over \<^verbatim>\<open>coverage["filename"]\<close>. \<^verbatim>\<open>gdal.Open\<close> returns \<^verbatim>\<open>None\<close>
  for a file it cannot open, and \<^verbatim>\<open>ds.GetRasterBand\<close> then raises \<^verbatim>\<open>AttributeError\<close>.
\<close>

fun process_images ::
  "env \<Rightarrow> sys \<Rightarrow> params \<Rightarrow> (asset \<times> string) list \<Rightarrow> state \<Rightarrow> string list \<Rightarrow> error + outcome" where
  "process_images e y p joined s [] = Inr (Next s)"
| "process_images e y p joined s (img # rest) =
     (case tiles e img of
        None \<Rightarrow> Inl AttributeError
      | Some ds \<Rightarrow>
          (case process_rows y p ds s (map fst (filter (\<lambda>(a, f). f = img) joined)) of
             Inl err \<Rightarrow> Inl err
           | Inr (Returned v s') \<Rightarrow> Inr (Returned v s')
           | Inr (Next s') \<Rightarrow> process_images e y p joined s' rest))"

definition init_state :: state where
  "init_state = \<lparr>dataset = [], images = [], geojson = [], draws = 0\<rparr>"

text \<open>The run of \<^verbatim>\<open>make_examples\<close> up to the point where it returns.\<close>

definition make_examples_run ::
  "env \<Rightarrow> sys \<Rightarrow> asset list frame_arg \<Rightarrow> coverage_record list frame_arg \<Rightarrow> params
     \<Rightarrow> error + outcome" where
  "make_examples_run e y assets coverage p =
     (case resolve (asset_files e) assets of
        Inl err \<Rightarrow> Inl err
      | Inr assets' \<Rightarrow>
          (case resolve (coverage_files e) coverage of
             Inl err \<Rightarrow> Inl err
           | Inr coverage' \<Rightarrow>
               process_images e y p (sjoin y assets' coverage') init_state
                 (map cov_filename coverage')))"

text \<open>
  \<^verbatim>\<open>make_examples\<close>: the value it returns and the state it leaves. Leaving the loops without
  a \<^verbatim>\<open>return\<close> statement returns \<^verbatim>\<open>None\<close>.
\<close>

definition make_examples ::
  "env \<Rightarrow> sys \<Rightarrow> asset list frame_arg \<Rightarrow> coverage_record list frame_arg \<Rightarrow> params
     \<Rightarrow> error + (example list option \<times> state)" where
  "make_examples e y assets coverage p =
     (case make_examples_run e y assets coverage p of
        Inl err \<Rightarrow> Inl err
      | Inr (Next s) \<Rightarrow> Inr (None, s)
      | Inr (Returned v s) \<Rightarrow> Inr (v, s))"

section \<open>Notions used in the statements\<close>

text \<open>
  The checkpoint writes that a frame of \<open>rows\<close> has gone through while it grew one row at a
  time: one write for every multiple of 50 up to its length, holding the rows appended so far.
\<close>

definition checkpoints :: "string \<Rightarrow> example list \<Rightarrow> file_write list" where
  "checkpoints file rows =
     map (\<lambda>k. Checkpoint_write file 4326 (take (50 * Suc k) rows)) [0..<length rows div 50]"

text \<open>
  The invariant of the loops: what has been written when the body ends in \<open>Next\<close>, and
  when it ends in \<open>Returned\<close>.
\<close>

fun run_inv :: "sys \<Rightarrow> params \<Rightarrow> outcome \<Rightarrow> bool" where
  "run_inv y p (Next s) \<longleftrightarrow>
     geojson s = checkpoints (checkpoint_file y p) (dataset s) \<and>
     (dataset s = [] \<or> max_length p \<noteq> Some (int (length (dataset s))))"
| "run_inv y p (Returned v s) \<longleftrightarrow>
     v = None \<and> dataset s \<noteq> [] \<and> max_length p = Some (int (length (dataset s))) \<and>
     geojson s = checkpoints (checkpoint_file y p) (dataset s) @
                   [Final_write (checkpoint_file y p) (dataset s)]"

text \<open>
  The pixel of the asset relative to the upper left pixel \<open>(x, y')\<close> of the window: the position
  of the asset in the frame of the saved crop.
\<close>

definition window_position :: "raster \<Rightarrow> asset \<Rightarrow> int \<Rightarrow> int \<Rightarrow> float_pixel \<times> float_pixel" where
  "window_position ds row x y' =
     (shift (fst (asset_pixel ds row)) x, shift (snd (asset_pixel ds row)) y')"

section \<open>Concrete inputs\<close>

text \<open>
  A tile of 100 by 100 pixels with three bands, pixel size 1 and origin \<open>(0, 0)\<close>, a directory
  holding two such tiles and a text file, and assets inside and at the edge of the tile. The
  generator's output is constantly 0, which gives the lowest offset.
\<close>

definition demo_tile :: raster where
  "demo_tile =
     \<lparr>cornerCoordinates =
        \<lparr>upperLeft = (0, 0), lowerLeft = (0, - 100), lowerRight = (100, - 100),
         upperRight = (100, 0)\<rparr>,
      geoTransform = \<lparr>gt_0 = 0, gt_1 = 1, gt_2 = 0, gt_3 = 0, gt_4 = 0, gt_5 = - 1\<rparr>,
      RasterXSize = 100, RasterYSize = 100,
      raster_bands = [\<lambda>c r. 0, \<lambda>c r. 0, \<lambda>c r. 0]\<rparr>"

definition demo_sys :: sys where
  "demo_sys = \<lparr>cwd = ''/home/u'', intersects = (\<lambda>pt poly. True), entropy = (\<lambda>k. 0)\<rparr>"

definition demo_params :: params where
  "demo_params = \<lparr>img_path = ''/ex/'', max_length = Some 10, height = 18, width = 18\<rparr>"

definition demo_asset :: asset where
  "demo_asset = \<lparr>asset_id = 7, asset_geometry = (50, - 50)\<rparr>"

definition edge_asset :: asset where
  "edge_asset = \<lparr>asset_id = 3, asset_geometry = (2, - 2)\<rparr>"

definition far_asset :: asset where
  "far_asset = \<lparr>asset_id = 7, asset_geometry = (500, - 500)\<rparr>"

definition wide_tile :: raster where
  "wide_tile =
     demo_tile
       \<lparr>cornerCoordinates :=
          \<lparr>upperLeft = (0, 0), lowerLeft = (0, - 1100), lowerRight = (1100, - 1100),
           upperRight = (1100, 0)\<rparr>,
        RasterXSize := 1100, RasterYSize := 1100\<rparr>"

definition full_batch :: state where
  "full_batch =
     init_state\<lparr>dataset := replicate 49 (new_row demo_params demo_tile demo_asset 42 42 (- 1) (- 1))\<rparr>"

definition demo_env :: env where
  "demo_env =
     \<lparr>listdir = (\<lambda>d. if d = ''tiles'' then Some [''a.tif'', ''notes.txt'', ''b.tif''] else None),
      tiles = (\<lambda>f. if f = ''tiles/a.tif'' \<or> f = ''tiles/b.tif'' then Some demo_tile else None),
      coverage_files = (\<lambda>f. None),
      asset_files = (\<lambda>f. None)\<rparr>"

definition demo_rows :: "coverage_record list" where
  "demo_rows =
     [\<lparr>cov_filename = ''tiles/a.tif'',
       cov_geometry = Polygon [(0, 0), (100, 0), (100, - 100), (0, - 100)]\<rparr>,
      \<lparr>cov_filename = ''tiles/b.tif'',
       cov_geometry = Polygon [(0, 0), (100, 0), (100, - 100), (0, - 100)]\<rparr>]"

definition other_rows :: "coverage_record list" where
  "other_rows =
     [\<lparr>cov_filename = ''old/z.tif'',
       cov_geometry = Polygon [(200, 0), (300, 0), (300, - 100), (200, - 100)]\<rparr>]"

definition stale_rows :: "coverage_record list" where
  "stale_rows =
     [\<lparr>cov_filename = ''tiles/a.tif'',
       cov_geometry = Polygon [(0, 0), (50, 0), (50, - 50), (0, - 50)]\<rparr>]"

text \<open>The directory above, with \<^verbatim>\<open>index.json\<close> holding the given rows.\<close>

definition resumed_env :: "coverage_record list \<Rightarrow> env" where
  "resumed_env rows =
     demo_env\<lparr>coverage_files := (\<lambda>f. if f = ''index.json'' then Some rows else None)\<rparr>"

text \<open>The definitions that evaluate a run on the concrete inputs.\<close>

lemmas eval_defs =
  process_row_def crop_window_def asset_pixel_def geo_pixel_def around_def draw_offset_def
  randint_def transfer_pixels_def read_band_def GetRasterBand_def ReadAsArray_def stack_def
  save_results_def new_row_def bbox_def tower_width_def tower_height_def img_polygon_def
  str_int_def digits.simps out_dir_def checkpoint_file_def init_state_def
  demo_tile_def demo_sys_def demo_params_def demo_asset_def Let_def

lemmas index_defs =
  make_polygon_list_def tif_files_def endswith_def os_path_join_def loaded_index_def
  corner_polygon_def indexes_def demo_env_def demo_tile_def demo_rows_def other_rows_def stale_rows_def
  resumed_env_def

lemmas run_defs =
  make_examples_def make_examples_run_def resolve_def sjoin_def demo_env_def demo_rows_def
  edge_asset_def full_batch_def eval_defs

section \<open>Properties of the coverage indexer\<close>

lemma add_tiles_appends:
  "add_tiles e files coverage = Inr result \<Longrightarrow>
     \<exists>added. result = coverage @ added \<and>
       list_all2
         (\<lambda>row file. cov_filename row = file \<and>
            map_option (\<lambda>info. corner_polygon (cornerCoordinates info)) (tiles e file)
              = Some (cov_geometry row))
         added files"
proof (induction files arbitrary: coverage)
  case Nil
  then show ?case by simp
next
  case (Cons tif files)
  from Cons.prems obtain info where info: "tiles e tif = Some info"
    by (cases "tiles e tif") auto
  let ?row = "\<lparr>cov_filename = tif, cov_geometry = corner_polygon (cornerCoordinates info)\<rparr>"
  from Cons.prems info have "add_tiles e files (coverage @ [?row]) = Inr result"
    by simp
  from Cons.IH [OF this] obtain added where
    res: "result = (coverage @ [?row]) @ added" and
    rel: "list_all2
         (\<lambda>row file. cov_filename row = file \<and>
            map_option (\<lambda>info. corner_polygon (cornerCoordinates info)) (tiles e file)
              = Some (cov_geometry row))
         added files"
    by blast
  have "result = coverage @ (?row # added)"
    using res by simp
  moreover have "list_all2
         (\<lambda>row file. cov_filename row = file \<and>
            map_option (\<lambda>info. corner_polygon (cornerCoordinates info)) (tiles e file)
              = Some (cov_geometry row))
         (?row # added) (tif # files)"
    using rel info by simp
  ultimately show ?case by blast
qed

lemma make_polygon_list_rows:
  assumes "make_polygon_list e path resume_file = Inr coverage"
    and "listdir e path = Some entries"
  shows "\<exists>added. cov_rows coverage = loaded_index e resume_file @ added \<and>
           indexes e path entries added"
proof -
  from assms obtain rows where
    run: "add_tiles e (tif_files path entries) (loaded_index e resume_file) = Inr rows" and
    cov: "coverage = \<lparr>cov_rows = rows, cov_crs = 4326\<rparr>"
    by (auto simp: make_polygon_list_def split: sum.splits)
  from add_tiles_appends [OF run] obtain added where
    rows: "rows = loaded_index e resume_file @ added" and
    rel: "list_all2
         (\<lambda>row file. cov_filename row = file \<and>
            map_option (\<lambda>info. corner_polygon (cornerCoordinates info)) (tiles e file)
              = Some (cov_geometry row))
         added (tif_files path entries)"
    by blast
  from rel have "indexes e path entries added"
    by (simp add: indexes_def tif_files_def list_all2_map2)
  with rows cov show ?thesis by auto
qed

lemma make_polygon_list_filenames:
  assumes "make_polygon_list e path resume_file = Inr coverage"
    and "listdir e path = Some entries"
  shows "map cov_filename (cov_rows coverage) =
           map cov_filename (loaded_index e resume_file) @ tif_files path entries"
proof -
  from make_polygon_list_rows [OF assms] obtain added where
    rows: "cov_rows coverage = loaded_index e resume_file @ added" and
    ix: "indexes e path entries added"
    by blast
  from ix have "list_all2 (\<lambda>row file. cov_filename row = file) added (tif_files path entries)"
    by (auto simp: indexes_def tif_files_def list_all2_map2 elim: list_all2_mono)
  then have "map cov_filename added = tif_files path entries"
    by (induction rule: list_all2_induct) auto
  with rows show ?thesis by simp
qed

text \<open>
  \<^bold>\<open>Claim C1.\<close> A run leaves, after the rows loaded from the resume file, exactly one row for
  every \<^verbatim>\<open>.tif\<close> entry of the directory, in the order of the listing: its file name is the
  joined path and its footprint is the polygon of the tile's corners in the order upper left,
  upper right, lower right, lower left. When nothing was loaded, these rows are the whole
  index.
\<close>

theorem coverage_index_rows:
  assumes "make_polygon_list e path resume_file = Inr coverage"
    and "listdir e path = Some entries"
  shows "(\<exists>added. cov_rows coverage = loaded_index e resume_file @ added \<and>
            indexes e path entries added) \<and>
         (loaded_index e resume_file = [] \<longrightarrow> indexes e path entries (cov_rows coverage))"
  using make_polygon_list_rows [OF assms] by auto

theorem coverage_index_rows_witness:
  "make_polygon_list demo_env ''tiles'' None = Inr \<lparr>cov_rows = demo_rows, cov_crs = 4326\<rparr> \<and>
   listdir demo_env ''tiles'' = Some [''a.tif'', ''notes.txt'', ''b.tif''] \<and>
   loaded_index demo_env None = [] \<and>
   indexes demo_env ''tiles'' [''a.tif'', ''notes.txt'', ''b.tif''] demo_rows"
proof -
  have run: "make_polygon_list demo_env ''tiles'' None = Inr \<lparr>cov_rows = demo_rows, cov_crs = 4326\<rparr>"
    by (simp add: index_defs)
  have ls: "listdir demo_env ''tiles'' = Some [''a.tif'', ''notes.txt'', ''b.tif'']"
    by (simp add: demo_env_def)
  have empty: "loaded_index demo_env None = []"
    by (simp add: loaded_index_def)
  from coverage_index_rows [OF run ls] empty run ls show ?thesis
    by simp
qed

text \<open>
  With a resume file that already holds a row for a tile of the directory, the index has two
  rows for that tile, and the loaded one keeps its old footprint.
\<close>

theorem resumed_index_has_two_rows:
  "make_polygon_list (resumed_env stale_rows)
     ''tiles'' (Some ''index.json'')
     = Inr \<lparr>cov_rows = stale_rows @ demo_rows, cov_crs = 4326\<rparr> \<and>
   count_list (map cov_filename (stale_rows @ demo_rows)) ''tiles/a.tif'' = 2 \<and>
   \<not> indexes (resumed_env stale_rows)
       ''tiles'' [''a.tif'', ''notes.txt'', ''b.tif''] (stale_rows @ demo_rows)"
  by (simp add: index_defs)

text \<open>
  \<^bold>\<open>Claim C7.\<close> Resuming compares no file names: the file names of the resulting index are those
  of the loaded index followed by the \<^verbatim>\<open>.tif\<close> paths of the directory. Every file name occurs at
  most once in the result exactly when that holds for the loaded index and for the paths, and
  no loaded file name is one of the paths.
\<close>

theorem resumed_index_filenames:
  assumes "make_polygon_list e path resume_file = Inr coverage"
    and "listdir e path = Some entries"
  shows "map cov_filename (cov_rows coverage) =
           map cov_filename (loaded_index e resume_file) @ tif_files path entries \<and>
         (distinct (map cov_filename (cov_rows coverage)) \<longleftrightarrow>
            distinct (map cov_filename (loaded_index e resume_file)) \<and>
            distinct (tif_files path entries) \<and>
            set (map cov_filename (loaded_index e resume_file)) \<inter> set (tif_files path entries) = {})"
  using make_polygon_list_filenames [OF assms] by simp

theorem resumed_index_filenames_witness:
  "make_polygon_list (resumed_env other_rows)
     ''tiles'' (Some ''index.json'')
     = Inr \<lparr>cov_rows = other_rows @ demo_rows, cov_crs = 4326\<rparr> \<and>
   map cov_filename (other_rows @ demo_rows) = [''old/z.tif'', ''tiles/a.tif'', ''tiles/b.tif''] \<and>
   distinct (map cov_filename (other_rows @ demo_rows))"
proof -
  let ?e = "resumed_env other_rows"
  have run: "make_polygon_list ?e ''tiles'' (Some ''index.json'')
     = Inr \<lparr>cov_rows = other_rows @ demo_rows, cov_crs = 4326\<rparr>"
    by (simp add: index_defs)
  have ls: "listdir ?e ''tiles'' = Some [''a.tif'', ''notes.txt'', ''b.tif'']"
    by (simp add: demo_env_def resumed_env_def)
  from resumed_index_filenames [OF run ls] run show ?thesis
    by (simp add: index_defs)
qed

text \<open>
  A run on the directory, then a second run on the same directory that resumes from the
  index of the first: both file names occur twice.
\<close>

theorem rerun_duplicates_filenames:
  "make_polygon_list demo_env ''tiles'' None = Inr \<lparr>cov_rows = demo_rows, cov_crs = 4326\<rparr> \<and>
   make_polygon_list (resumed_env demo_rows)
     ''tiles'' (Some ''index.json'')
     = Inr \<lparr>cov_rows = demo_rows @ demo_rows, cov_crs = 4326\<rparr> \<and>
   \<not> distinct (map cov_filename (demo_rows @ demo_rows))"
  by (simp add: index_defs)

section \<open>Properties of the example extractor\<close>

subsection \<open>The random offset\<close>

lemma draw_offset_range:
  assumes "draw_offset extent r = Inr off"
  shows "(- extent) div 2 + 8 \<le> off \<and> off < extent div 2 - 8"
proof -
  let ?low = "(- extent) div 2 + 8" and ?high = "extent div 2 - 8"
  from assms have lt: "?low < ?high" and off: "off = ?low + int r mod (?high - ?low)"
    by (auto simp: draw_offset_def randint_def split: if_splits)
  from lt have "0 \<le> int r mod (?high - ?low)" "int r mod (?high - ?low) < ?high - ?low"
    by simp_all
  with off show ?thesis by linarith
qed

lemma possible_offsets_interval:
  "possible_offsets extent = {(- extent) div 2 + 8 ..< extent div 2 - 8}"
proof (intro set_eqI iffI)
  fix off
  assume "off \<in> possible_offsets extent"
  then show "off \<in> {(- extent) div 2 + 8 ..< extent div 2 - 8}"
    using draw_offset_range by (auto simp: possible_offsets_def)
next
  fix off
  let ?low = "(- extent) div 2 + 8" and ?high = "extent div 2 - 8"
  assume "off \<in> {?low ..< ?high}"
  then have b: "?low \<le> off" "off < ?high" by simp_all
  then have "int (nat (off - ?low)) mod (?high - ?low) = off - ?low"
    by simp
  with b have "draw_offset extent (nat (off - ?low)) = Inr off"
    by (simp add: draw_offset_def randint_def)
  then show "off \<in> possible_offsets extent"
    unfolding possible_offsets_def by blast
qed

text \<open>
  \<^bold>\<open>Claim C3.\<close> For an even width or height, the possible offsets along that axis are exactly
  the integers from \<open>- extent / 2 + 8\<close> to \<open>extent / 2 - 9\<close>: \<^verbatim>\<open>np.random.randint\<close> excludes its
  upper argument \<open>extent / 2 - 8\<close>.
\<close>

theorem offsets_even_extent:
  assumes "even extent"
  shows "possible_offsets extent = {- (extent div 2) + 8 .. extent div 2 - 9}"
proof -
  from assms have "(- extent) div 2 = - (extent div 2)"
    by (elim evenE) simp
  then show ?thesis
    unfolding possible_offsets_interval by auto
qed

theorem offsets_even_extent_witness:
  "even (512 :: int) \<and> possible_offsets 512 = {- 248 .. 247}"
  using offsets_even_extent [of 512] by simp

text \<open>For the default size 512 the upper endpoint 248 of the closed interval is never drawn.\<close>

theorem offset_upper_endpoint_never_drawn:
  "(248 :: int) \<in> {- (512 div 2) + 8 .. 512 div 2 - 8} \<and> 248 \<notin> possible_offsets 512"
  unfolding possible_offsets_interval by simp

subsection \<open>The window and the position of the asset in it\<close>

lemma crop_window_position:
  assumes "crop_window y p ds row n = Inr (x, y', off_x, off_y)"
  shows "window_position ds row x y' = (Finite (width p div 2 + off_x), Finite (height p div 2 + off_y))"
    and "off_x \<in> possible_offsets (width p)" and "off_y \<in> possible_offsets (height p)"
proof -
  from assms obtain ox where ox: "draw_offset (width p) (entropy y n) = Inr ox"
    by (cases "draw_offset (width p) (entropy y n)") (simp_all add: crop_window_def Let_def)
  from assms ox obtain oy where oy: "draw_offset (height p) (entropy y (n + 1)) = Inr oy"
    by (cases "draw_offset (height p) (entropy y (n + 1))") (simp_all add: crop_window_def Let_def)
  obtain a b where ab: "asset_pixel ds row = (a, b)"
    by (cases "asset_pixel ds row") auto
  from assms ox oy ab have res:
    "py_int (shift (shift a (width p div 2)) ox) = Inr x"
    "py_int (shift (shift b (height p div 2)) oy) = Inr y'"
    "off_x = ox" "off_y = oy"
    by (auto simp: crop_window_def Let_def split: sum.splits)
  from res(1) obtain u where u: "a = Finite u" "x = u - width p div 2 - ox"
    by (cases a) auto
  from res(2) obtain v where v: "b = Finite v" "y' = v - height p div 2 - oy"
    by (cases b) auto
  from u v ab res(3,4)
  show "window_position ds row x y' = (Finite (width p div 2 + off_x), Finite (height p div 2 + off_y))"
    by (simp add: window_position_def)
  from ox oy res(3,4) show "off_x \<in> possible_offsets (width p)" "off_y \<in> possible_offsets (height p)"
    unfolding possible_offsets_def by blast+
qed

lemma window_position_even:
  assumes "crop_window y p ds row n = Inr (x, y', off_x, off_y)"
    and "even (width p)" and "even (height p)"
  shows "\<exists>u v. window_position ds row x y' = (Finite u, Finite v) \<and>
           8 \<le> u \<and> u \<le> width p - 9 \<and> 8 \<le> v \<and> v \<le> height p - 9"
proof -
  note pos = crop_window_position [OF assms(1)]
  from assms(2) have w: "(- width p) div 2 = - (width p div 2)" "2 * (width p div 2) = width p"
    by (auto elim: evenE)
  from assms(3) have h: "(- height p) div 2 = - (height p div 2)" "2 * (height p div 2) = height p"
    by (auto elim: evenE)
  from pos(2) w have "8 \<le> width p div 2 + off_x \<and> width p div 2 + off_x \<le> width p - 9"
    unfolding possible_offsets_interval by auto
  moreover from pos(3) h have "8 \<le> height p div 2 + off_y \<and> height p div 2 + off_y \<le> height p - 9"
    unfolding possible_offsets_interval by auto
  ultimately show ?thesis using pos(1) by simp
qed

lemma ReadAsArray_shape:
  assumes "ReadAsArray ds band x y' w h = Some a"
  shows "length a = nat h \<and> (\<forall>line \<in> set a. length line = nat w)"
  using assms by (auto simp: ReadAsArray_def split: if_splits)

lemma read_band_shape:
  assumes "read_band ds i x y' w h = Some a"
  shows "length a = nat h \<and> (\<forall>line \<in> set a. length line = nat w)"
  using assms ReadAsArray_shape
  by (cases "GetRasterBand ds i") (simp_all add: read_band_def)

lemma transfer_pixels_shape:
  assumes "transfer_pixels ds x y' w h = Some new_img"
  shows "length new_img = nat h \<and> (\<forall>line \<in> set new_img. length line = nat w)"
proof -
  from assms obtain r where r: "read_band ds 1 x y' w h = Some r"
    by (cases "read_band ds 1 x y' w h") (simp_all add: transfer_pixels_def)
  from assms r obtain g where g: "read_band ds 2 x y' w h = Some g"
    by (cases "read_band ds 2 x y' w h") (simp_all add: transfer_pixels_def)
  from assms r g obtain b where b: "read_band ds 3 x y' w h = Some b"
    by (cases "read_band ds 3 x y' w h") (simp_all add: transfer_pixels_def)
  from assms r g b have img: "new_img = stack r g b"
    by (simp add: transfer_pixels_def)
  note sh = read_band_shape [OF r] read_band_shape [OF g] read_band_shape [OF b]
  from sh have len: "length new_img = nat h"
    by (simp add: img stack_def)
  have "length line = nat w" if "line \<in> set new_img" for line
  proof -
    from that obtain rr gr br where mem: "(rr, gr, br) \<in> set (zip r (zip g b))"
      and line: "line = map (\<lambda>(u, v, w). (u mod 256, v mod 256, w mod 256)) (zip rr (zip gr br))"
      unfolding img stack_def by auto
    from mem have "rr \<in> set r" "(gr, br) \<in> set (zip g b)"
      by (auto dest: set_zip_leftD set_zip_rightD)
    then have "rr \<in> set r" "gr \<in> set g" "br \<in> set b"
      by (auto dest: set_zip_leftD set_zip_rightD)
    with sh line show ?thesis by simp
  qed
  with len show ?thesis by blast
qed

lemma read_band_outside:
  assumes "x < 0 \<or> y' < 0 \<or> RasterXSize ds < x + w \<or> RasterYSize ds < y' + h"
  shows "read_band ds i x y' w h = None"
  using assms
  by (cases "GetRasterBand ds i") (auto simp: read_band_def ReadAsArray_def)

lemma transfer_pixels_outside:
  assumes "x < 0 \<or> y' < 0 \<or> RasterXSize ds < x + w \<or> RasterYSize ds < y' + h"
  shows "transfer_pixels ds x y' w h = None"
  by (simp add: transfer_pixels_def read_band_outside [OF assms])

lemma read_band_inside:
  assumes "1 \<le> i" "i \<le> length (raster_bands ds)"
    and "0 \<le> x" "0 \<le> y'" "x + w \<le> RasterXSize ds" "y' + h \<le> RasterYSize ds"
  shows "read_band ds i x y' w h \<noteq> None"
  using assms by (simp add: read_band_def GetRasterBand_def ReadAsArray_def)

lemma transfer_pixels_inside:
  assumes "3 \<le> length (raster_bands ds)"
    and "0 \<le> x" "0 \<le> y'" "x + w \<le> RasterXSize ds" "y' + h \<le> RasterYSize ds"
  shows "transfer_pixels ds x y' w h \<noteq> None"
proof -
  have "read_band ds 1 x y' w h \<noteq> None" "read_band ds 2 x y' w h \<noteq> None"
    "read_band ds 3 x y' w h \<noteq> None"
    using assms by (simp_all add: read_band_inside)
  then show ?thesis
    by (auto simp: transfer_pixels_def)
qed

text \<open>
  \<^bold>\<open>Claim C4.\<close> The asset lies at least 8 pixels inside the window. For an even width and height
  this holds (\<open>window_position_even\<close>), and the block read has \<open>height\<close> rows of \<open>width\<close> pixels
  (\<open>transfer_pixels_shape\<close>). For the odd width 513 the lowest offset is \<open>- 249\<close>, and the
  asset then lies in column 7 of a window that is read in full from the tile.
\<close>

theorem odd_width_margin_7:
  "crop_window demo_sys (demo_params\<lparr>height := 512, width := 513\<rparr>) wide_tile far_asset 0
     = Inr (493, 492, - 249, - 248) \<and>
   window_position wide_tile far_asset 493 492 = (Finite 7, Finite 8) \<and>
   transfer_pixels wide_tile 493 492 513 512 \<noteq> None"
proof -
  have "transfer_pixels wide_tile 493 492 513 512 \<noteq> None"
    by (rule transfer_pixels_inside) (simp_all add: wide_tile_def demo_tile_def)
  then show ?thesis
    by (simp add: crop_window_def window_position_def asset_pixel_def geo_pixel_def around_def
      draw_offset_def randint_def wide_tile_def demo_tile_def demo_sys_def demo_params_def
      far_asset_def Let_def)
qed

subsection \<open>The bounding box\<close>

lemma bbox_extent:
  "bbox w h off_x off_y = (b0, b1, b2, b3) \<Longrightarrow>
     b2 - b0 = 30 \<and> b3 - b1 = 24 \<and>
     b0 + 15 = w div 2 + off_x \<and> b1 + 12 = h div 2 + off_y"
  by (auto simp: bbox_def tower_width_def tower_height_def Let_def)

lemma new_row_box:
  "lr_x (new_row p ds row x y' off_x off_y) - ul_x (new_row p ds row x y' off_x off_y) = 30 \<and>
   lr_y (new_row p ds row x y' off_x off_y) - ul_y (new_row p ds row x y' off_x off_y) = 24 \<and>
   ul_x (new_row p ds row x y' off_x off_y) + 15 = width p div 2 + off_x \<and>
   ul_y (new_row p ds row x y' off_x off_y) + 12 = height p div 2 + off_y"
  by (simp add: new_row_def bbox_def tower_width_def tower_height_def Let_def)

text \<open>
  \<^bold>\<open>Claim C2.\<close> The box of a produced row is 30 pixels wide and centred on the nominal centre plus
  the offset, but it is 24 pixels high, not 25: both halves are \<^verbatim>\<open>tower_height // 2 = 12\<close>
  (\<open>new_row_box\<close>, and \<open>process_row_box\<close> below for every appended row). Here a crop of 40 by 40
  pixels with offset 0 along both axes.
\<close>

theorem bbox_height_40:
  "map_sum id (\<lambda>oc. dataset (state_of oc))
     (process_row (demo_sys\<lparr>entropy := (\<lambda>k. 12)\<rparr>) (demo_params\<lparr>height := 40, width := 40\<rparr>)
        demo_tile init_state demo_asset) =
   Inr [\<lparr>ex_filename = ''7'', ul_x = 5, ul_y = 8, lr_x = 35, lr_y = 32,
         ex_geometry = Polygon [(30, - 30), (70, - 30), (70, - 70), (30, - 70)]\<rparr>]"
  by (simp add: eval_defs)

text \<open>
  \<^bold>\<open>Claim C9.\<close> For every width and height of at least 17 pixels (smaller ones make
  \<^verbatim>\<open>np.random.randint\<close> raise) there are possible offsets for which the lower right corner of
  the box lies beyond the window: \<open>lr_x\<close> exceeds the width and \<open>lr_y\<close> the height.
\<close>

theorem bbox_leaves_window:
  assumes "17 \<le> w" and "17 \<le> h"
  shows "\<exists>off_x \<in> possible_offsets w. \<exists>off_y \<in> possible_offsets h.
           case bbox w h off_x off_y of (b0, b1, b2, b3) \<Rightarrow> w < b2 \<and> h < b3"
proof -
  have ox: "w div 2 - 9 \<in> possible_offsets w" and oy: "h div 2 - 9 \<in> possible_offsets h"
    using assms unfolding possible_offsets_interval by auto
  have box: "case bbox w h (w div 2 - 9) (h div 2 - 9) of (b0, b1, b2, b3) \<Rightarrow> w < b2 \<and> h < b3"
    by (simp add: bbox_def tower_width_def tower_height_def Let_def) linarith
  show ?thesis
    by (rule bexI [OF _ ox], rule bexI [OF _ oy], rule box)
qed

theorem bbox_leaves_window_witness:
  "(17 :: int) \<le> 512 \<and>
   (\<exists>off_x \<in> possible_offsets 512. \<exists>off_y \<in> possible_offsets 512.
      case bbox 512 512 off_x off_y of (b0, b1, b2, b3) \<Rightarrow> 512 < b2 \<and> 512 < b3)"
  using bbox_leaves_window [of 512 512] by simp

subsection \<open>The writes of the data set\<close>

lemma checkpoints_take:
  assumes "q \<le> length rows div 50"
  shows "map (\<lambda>k. Checkpoint_write file 4326 (take (50 * Suc k) (rows @ [r]))) [0..<q]
      = map (\<lambda>k. Checkpoint_write file 4326 (take (50 * Suc k) rows)) [0..<q]"
proof (rule map_cong [OF refl])
  fix k
  assume "k \<in> set [0..<q]"
  then have "k < length rows div 50"
    using assms by simp
  then have "Suc k * 50 \<le> length rows"
    by (simp add: less_eq_div_iff_mult_less_eq Suc_le_eq)
  then have "50 * Suc k \<le> length rows"
    by (simp only: mult.commute)
  then show "Checkpoint_write file 4326 (take (50 * Suc k) (rows @ [r])) =
        Checkpoint_write file 4326 (take (50 * Suc k) rows)"
    by simp
qed

lemma checkpoints_snoc:
  "checkpoints file (rows @ [r]) =
     checkpoints file rows @
       (if length (rows @ [r]) mod 50 = 0 then [Checkpoint_write file 4326 (rows @ [r])] else [])"
proof (cases "Suc (length rows) mod 50 = 0")
  case True
  let ?q = "length rows div 50"
  let ?f = "\<lambda>k. Checkpoint_write file 4326 (take (50 * Suc k) (rows @ [r]))"
  from True have d: "Suc (length rows) div 50 = Suc ?q"
    by (simp add: div_Suc)
  have "50 * (Suc (length rows) div 50) = Suc (length rows)"
    using True by (metis mod_0_imp_dvd dvd_mult_div_cancel)
  then have full: "50 * Suc ?q = Suc (length rows)"
    by (simp only: d)
  have last_one: "?f ?q = Checkpoint_write file 4326 (rows @ [r])"
    by (simp only: full) simp
  have "checkpoints file (rows @ [r]) = map ?f [0..<Suc ?q]"
    by (simp only: checkpoints_def length_append_singleton d)
  also have "\<dots> = map ?f [0..<?q] @ [?f ?q]"
    by (simp only: upt_Suc_append [OF le0] map_append list.map)
  also have "map ?f [0..<?q] = checkpoints file rows"
    by (simp only: checkpoints_def checkpoints_take [OF order_refl])
  finally have "checkpoints file (rows @ [r]) =
      checkpoints file rows @ [Checkpoint_write file 4326 (rows @ [r])]"
    by (simp only: last_one)
  with True show ?thesis
    by simp
next
  case False
  let ?q = "length rows div 50"
  let ?f = "\<lambda>k. Checkpoint_write file 4326 (take (50 * Suc k) (rows @ [r]))"
  from False have d: "Suc (length rows) div 50 = ?q"
    by (simp add: div_Suc)
  have "checkpoints file (rows @ [r]) = map ?f [0..<?q]"
    by (simp only: checkpoints_def length_append_singleton d)
  also have "map ?f [0..<?q] = checkpoints file rows"
    by (simp only: checkpoints_def checkpoints_take [OF order_refl])
  finally have "checkpoints file (rows @ [r]) = checkpoints file rows" .
  with False show ?thesis
    by simp
qed

lemma checkpoints_empty: "checkpoints file rows = [] \<longleftrightarrow> length rows < 50"
  by (simp add: checkpoints_def div_eq_0_iff)

lemma checkpoints_last:
  assumes "checkpoints file rows \<noteq> []"
  shows "last (checkpoints file rows) =
           Checkpoint_write file 4326 (take (50 * (length rows div 50)) rows)"
proof -
  from assms obtain q where q: "length rows div 50 = Suc q"
    by (cases "length rows div 50") (simp_all add: checkpoints_def)
  show ?thesis
    unfolding checkpoints_def q by (simp only: upt_Suc_append [OF le0] map_append list.map last_snoc)
qed

lemma save_results_geojson:
  "geojson (state_of (save_results y p s)) =
     geojson s @
       (if length (dataset s) mod 50 = 0
        then [Checkpoint_write (checkpoint_file y p) 4326 (dataset s)] else []) @
       (if max_length p = Some (int (length (dataset s)))
        then [Final_write (checkpoint_file y p) (dataset s)] else [])"
  by (auto simp: save_results_def Let_def)

lemma save_results_dataset:
  "dataset (state_of (save_results y p s)) = dataset s"
  "images (state_of (save_results y p s)) = images s"
  "draws (state_of (save_results y p s)) = draws s"
  by (auto simp: save_results_def Let_def)

lemma save_results_outcome:
  "save_results y p s = Returned None (state_of (save_results y p s)) \<and>
     max_length p = Some (int (length (dataset s))) \<or>
   save_results y p s = Next (state_of (save_results y p s)) \<and>
     max_length p \<noteq> Some (int (length (dataset s)))"
  by (auto simp: save_results_def Let_def)

lemma process_row_cases:
  assumes "process_row y p ds s row = Inr oc"
  obtains (skipped) x y' off_x off_y where
      "crop_window y p ds row (draws s) = Inr (x, y', off_x, off_y)"
      "transfer_pixels ds x y' (width p) (height p) = None"
      "oc = Next (s\<lparr>draws := draws s + 2\<rparr>)"
  | (appended) x y' off_x off_y new_img where
      "crop_window y p ds row (draws s) = Inr (x, y', off_x, off_y)"
      "transfer_pixels ds x y' (width p) (height p) = Some new_img"
      "oc = save_results y p
         (s\<lparr>draws := draws s + 2,
            images := images s @ [(out_dir y p @ str_int (asset_id row) @ ''.png'', new_img)],
            dataset := dataset s @ [new_row p ds row x y' off_x off_y]\<rparr>)"
proof -
  from assms obtain win where win: "crop_window y p ds row (draws s) = Inr win"
    by (cases "crop_window y p ds row (draws s)") (simp_all add: process_row_def)
  obtain x y' off_x off_y where w: "win = (x, y', off_x, off_y)"
    by (cases win) auto
  show thesis
  proof (cases "transfer_pixels ds x y' (width p) (height p)")
    case None
    with assms win w have "oc = Next (s\<lparr>draws := draws s + 2\<rparr>)"
      by (simp add: process_row_def)
    with win w None show thesis by (intro skipped) auto
  next
    case (Some new_img)
    with assms win w have "oc = save_results y p
         (s\<lparr>draws := draws s + 2,
            images := images s @ [(out_dir y p @ str_int (asset_id row) @ ''.png'', new_img)],
            dataset := dataset s @ [new_row p ds row x y' off_x off_y]\<rparr>)"
      by (simp add: process_row_def)
    with win w Some show thesis by (intro appended) auto
  qed
qed

text \<open>Every appended row has a box of 30 by 24 pixels around the shifted centre.\<close>

lemma process_row_box:
  assumes "process_row y p ds s row = Inr oc" and "dataset (state_of oc) \<noteq> dataset s"
  shows "\<exists>x y' off_x off_y r.
           crop_window y p ds row (draws s) = Inr (x, y', off_x, off_y) \<and>
           dataset (state_of oc) = dataset s @ [r] \<and>
           lr_x r - ul_x r = 30 \<and> lr_y r - ul_y r = 24 \<and>
           ul_x r + 15 = width p div 2 + off_x \<and> ul_y r + 12 = height p div 2 + off_y"
  using assms(1)
proof (cases rule: process_row_cases)
  case (skipped x y' off_x off_y)
  with assms(2) show ?thesis by simp
next
  case (appended x y' off_x off_y new_img)
  have "dataset (state_of oc) = dataset s @ [new_row p ds row x y' off_x off_y]"
    unfolding appended(3) save_results_dataset by simp
  with appended(1) new_row_box [of p ds row x y' off_x off_y] show ?thesis
    by blast
qed

lemma save_results_inv:
  assumes "geojson s = checkpoints (checkpoint_file y p) (butlast (dataset s))"
    and "dataset s \<noteq> []"
  shows "run_inv y p (save_results y p s)"
proof -
  obtain rows r where rows: "dataset s = rows @ [r]"
    using assms(2) by (metis append_butlast_last_id)
  let ?f = "checkpoint_file y p"
  have cp: "checkpoints ?f (dataset s) =
      geojson s @ (if length (dataset s) mod 50 = 0
        then [Checkpoint_write ?f 4326 (dataset s)] else [])"
    using assms(1) unfolding rows checkpoints_snoc by simp
  have gj: "geojson (state_of (save_results y p s)) =
     checkpoints ?f (dataset s) @
       (if max_length p = Some (int (length (dataset s)))
        then [Final_write ?f (dataset s)] else [])"
    unfolding save_results_geojson cp by simp
  from save_results_outcome [of y p s] show ?thesis
  proof (elim disjE conjE)
    assume oc: "save_results y p s = Returned None (state_of (save_results y p s))"
      and cap: "max_length p = Some (int (length (dataset s)))"
    have "run_inv y p (Returned None (state_of (save_results y p s)))"
      using gj cap assms(2) by (simp add: save_results_dataset)
    with oc show ?thesis by simp
  next
    assume oc: "save_results y p s = Next (state_of (save_results y p s))"
      and cap: "max_length p \<noteq> Some (int (length (dataset s)))"
    have "run_inv y p (Next (state_of (save_results y p s)))"
      using gj cap by (simp add: save_results_dataset)
    with oc show ?thesis by simp
  qed
qed

lemma process_row_inv:
  assumes "process_row y p ds s row = Inr oc" and "run_inv y p (Next s)"
  shows "run_inv y p oc"
  using assms(1)
proof (cases rule: process_row_cases)
  case (skipped x y' off_x off_y)
  with assms(2) show ?thesis by simp
next
  case (appended x y' off_x off_y new_img)
  from assms(2) show ?thesis
    unfolding appended(3) by (intro save_results_inv) simp_all
qed

lemma process_rows_inv:
  "process_rows y p ds s rows = Inr oc \<Longrightarrow> run_inv y p (Next s) \<Longrightarrow> run_inv y p oc"
proof (induction rows arbitrary: s)
  case Nil
  then show ?case by auto
next
  case (Cons row rows)
  from Cons.prems(1) obtain oc1 where step: "process_row y p ds s row = Inr oc1"
    by (cases "process_row y p ds s row") auto
  from process_row_inv [OF step Cons.prems(2)] have inv1: "run_inv y p oc1" .
  show ?case
  proof (cases oc1)
    case (Next s1)
    with Cons.prems(1) step have "process_rows y p ds s1 rows = Inr oc" by simp
    from Cons.IH [OF this] inv1 Next show ?thesis by simp
  next
    case (Returned v s1)
    with Cons.prems(1) step have "oc = oc1" by simp
    with inv1 show ?thesis by simp
  qed
qed

lemma process_images_inv:
  "process_images e y p joined s imgs = Inr oc \<Longrightarrow> run_inv y p (Next s) \<Longrightarrow> run_inv y p oc"
proof (induction imgs arbitrary: s)
  case Nil
  then show ?case by auto
next
  case (Cons img imgs)
  from Cons.prems(1) obtain ds where ds: "tiles e img = Some ds"
    by (cases "tiles e img") auto
  let ?rows = "map fst (filter (\<lambda>(a, f). f = img) joined)"
  from Cons.prems(1) ds obtain oc1 where step: "process_rows y p ds s ?rows = Inr oc1"
    by (cases "process_rows y p ds s ?rows") auto
  from process_rows_inv [OF step Cons.prems(2)] have inv1: "run_inv y p oc1" .
  show ?case
  proof (cases oc1)
    case (Next s1)
    with Cons.prems(1) ds step have "process_images e y p joined s1 imgs = Inr oc" by simp
    from Cons.IH [OF this] inv1 Next show ?thesis by simp
  next
    case (Returned v s1)
    with Cons.prems(1) ds step have "oc = oc1" by simp
    with inv1 show ?thesis by simp
  qed
qed

lemma init_state_inv: "run_inv y p (Next init_state)"
  by (simp add: init_state_def checkpoints_def)

lemma make_examples_run_inv:
  assumes "make_examples_run e y assets coverage p = Inr oc"
  shows "run_inv y p oc"
proof -
  from assms obtain assets' where a: "resolve (asset_files e) assets = Inr assets'"
    by (cases "resolve (asset_files e) assets") (simp_all add: make_examples_run_def)
  from assms a obtain coverage' where c: "resolve (coverage_files e) coverage = Inr coverage'"
    by (cases "resolve (coverage_files e) coverage") (simp_all add: make_examples_run_def)
  from assms a c have "process_images e y p (sjoin y assets' coverage') init_state
                 (map cov_filename coverage') = Inr oc"
    by (simp add: make_examples_run_def)
  from process_images_inv [OF this init_state_inv] show ?thesis .
qed

lemma process_rows_Returned:
  "process_row y p ds s row = Inr (Returned v s') \<Longrightarrow>
     process_rows y p ds s (row # rows) = Inr (Returned v s')"
  by simp

lemma process_images_Returned:
  "tiles e img = Some ds \<Longrightarrow>
   process_rows y p ds s (map fst (filter (\<lambda>(a, f). f = img) joined)) = Inr (Returned v s') \<Longrightarrow>
     process_images e y p joined s (img # rest) = Inr (Returned v s')"
  by simp

text \<open>
  \<^bold>\<open>Claim C5.\<close> When the data set of a run has reached \<^verbatim>\<open>max_length\<close> rows, the run has ended in
  the \<^verbatim>\<open>return\<close> statement, and the last write to the checkpoint file holds the data set, with
  exactly \<^verbatim>\<open>max_length\<close> rows. Wherever a loop body ends in that outcome, the loops end in it,
  whatever rows and tiles remain.
\<close>

theorem cap_reached:
  assumes "make_examples_run e y assets coverage p = Inr oc"
    and "dataset (state_of oc) \<noteq> []"
    and "max_length p = Some (int (length (dataset (state_of oc))))"
  shows "oc = Returned None (state_of oc) \<and>
         geojson (state_of oc) \<noteq> [] \<and>
         last (geojson (state_of oc)) = Final_write (checkpoint_file y p) (dataset (state_of oc)) \<and>
         max_length p = Some (int (length (written_rows (last (geojson (state_of oc)))))) \<and>
         (\<forall>ds s row rows. process_row y p ds s row = Inr oc \<longrightarrow>
            process_rows y p ds s (row # rows) = Inr oc) \<and>
         (\<forall>img ds s joined rest. tiles e img = Some ds \<and>
            process_rows y p ds s (map fst (filter (\<lambda>(a, f). f = img) joined)) = Inr oc \<longrightarrow>
            process_images e y p joined s (img # rest) = Inr oc)"
proof -
  from make_examples_run_inv [OF assms(1)] have inv: "run_inv y p oc" .
  show ?thesis
  proof (cases oc)
    case (Next s)
    with inv assms(2,3) show ?thesis by simp
  next
    case (Returned v s)
    with inv have v: "v = None" and
      gj: "geojson s = checkpoints (checkpoint_file y p) (dataset s) @
                   [Final_write (checkpoint_file y p) (dataset s)]"
      by simp_all
    from Returned v gj assms(3) show ?thesis
      by simp
  qed
qed

theorem cap_reached_witness:
  "\<exists>s. make_examples_run demo_env demo_sys (Frame [demo_asset]) (Frame demo_rows)
          (demo_params\<lparr>max_length := Some 1\<rparr>) = Inr (Returned None s) \<and>
        length (dataset s) = 1 \<and>
        last (geojson s) = Final_write ''/home/u/ex/tower_examples.geojson'' (dataset s) \<and>
        length (written_rows (last (geojson s))) = 1"
proof -
  let ?p = "demo_params\<lparr>max_length := Some 1\<rparr>"
  have "\<exists>s. make_examples_run demo_env demo_sys (Frame [demo_asset]) (Frame demo_rows) ?p
          = Inr (Returned None s) \<and> length (dataset s) = 1"
    by (simp add: run_defs)
  then obtain s where
    run: "make_examples_run demo_env demo_sys (Frame [demo_asset]) (Frame demo_rows) ?p
          = Inr (Returned None s)" and len: "length (dataset s) = 1"
    by blast
  from len have ne: "dataset (state_of (Returned None s)) \<noteq> []"
    by auto
  from len have cap: "max_length ?p = Some (int (length (dataset (state_of (Returned None s)))))"
    by (simp add: demo_params_def)
  have f: "checkpoint_file demo_sys ?p = ''/home/u/ex/tower_examples.geojson''"
    by (simp add: run_defs)
  from cap_reached [OF run ne cap] run len f show ?thesis
    by auto
qed

text \<open>
  \<^bold>\<open>Claim C6.\<close> An append that makes the length a multiple of 50 writes the data set as it then
  is to the checkpoint file, with EPSG:4326 set; an append that reaches \<^verbatim>\<open>max_length\<close> writes
  it (again); any other append writes nothing. A run that ends by exhausting its input has
  made exactly the writes at the multiples of 50, so the file then holds the first
  \<open>50 * (n div 50)\<close> of the \<open>n\<close> rows, and no file was written when \<open>n < 50\<close>.
\<close>

theorem checkpoint_writes:
  "(process_row y p ds s row = Inr oc \<and> dataset (state_of oc) \<noteq> dataset s \<longrightarrow>
      geojson (state_of oc) =
        geojson s @
        (if length (dataset (state_of oc)) mod 50 = 0
         then [Checkpoint_write (checkpoint_file y p) 4326 (dataset (state_of oc))] else []) @
        (if max_length p = Some (int (length (dataset (state_of oc))))
         then [Final_write (checkpoint_file y p) (dataset (state_of oc))] else [])) \<and>
   (make_examples_run e y assets coverage p = Inr (Next s') \<longrightarrow>
      geojson s' = checkpoints (checkpoint_file y p) (dataset s') \<and>
      (geojson s' = [] \<longleftrightarrow> length (dataset s') < 50) \<and>
      (geojson s' \<noteq> [] \<longrightarrow>
         last (geojson s') =
           Checkpoint_write (checkpoint_file y p) 4326
             (take (50 * (length (dataset s') div 50)) (dataset s'))))"
proof (intro conjI impI)
  assume a: "process_row y p ds s row = Inr oc \<and> dataset (state_of oc) \<noteq> dataset s"
  then have step: "process_row y p ds s row = Inr oc" and grew: "dataset (state_of oc) \<noteq> dataset s"
    by simp_all
  from step show "geojson (state_of oc) =
        geojson s @
        (if length (dataset (state_of oc)) mod 50 = 0
         then [Checkpoint_write (checkpoint_file y p) 4326 (dataset (state_of oc))] else []) @
        (if max_length p = Some (int (length (dataset (state_of oc))))
         then [Final_write (checkpoint_file y p) (dataset (state_of oc))] else [])"
  proof (cases rule: process_row_cases)
    case (skipped x y' off_x off_y)
    with grew show ?thesis by simp
  next
    case (appended x y' off_x off_y new_img)
    show ?thesis
      unfolding appended(3) save_results_geojson save_results_dataset by simp
  qed
next
  assume "make_examples_run e y assets coverage p = Inr (Next s')"
  from make_examples_run_inv [OF this]
  show g: "geojson s' = checkpoints (checkpoint_file y p) (dataset s')"
    by simp
  show "(geojson s' = []) = (length (dataset s') < 50)"
    unfolding g by (rule checkpoints_empty)
  assume "geojson s' \<noteq> []"
  then show "last (geojson s') =
           Checkpoint_write (checkpoint_file y p) 4326
             (take (50 * (length (dataset s') div 50)) (dataset s'))"
    unfolding g by (rule checkpoints_last)
qed

theorem checkpoint_writes_witness:
  "(\<exists>oc. process_row demo_sys demo_params demo_tile full_batch demo_asset = Inr oc \<and>
      length (dataset full_batch) = 49 \<and> length (dataset (state_of oc)) = 50 \<and>
      geojson (state_of oc) =
        [Checkpoint_write ''/home/u/ex/tower_examples.geojson'' 4326 (dataset (state_of oc))]) \<and>
   (\<exists>s. make_examples_run demo_env demo_sys (Frame [demo_asset]) (Frame demo_rows) demo_params
          = Inr (Next s) \<and>
      length (dataset s) = 2 \<and> geojson s = [])"
proof -
  have "\<exists>oc. process_row demo_sys demo_params demo_tile full_batch demo_asset = Inr oc \<and>
      length (dataset (state_of oc)) = 50"
    by (simp add: run_defs)
  then obtain oc where
    step: "process_row demo_sys demo_params demo_tile full_batch demo_asset = Inr oc" and
    len: "length (dataset (state_of oc)) = 50"
    by blast
  have len0: "length (dataset full_batch) = 49" and g0: "geojson full_batch = []"
    by (simp_all add: full_batch_def init_state_def)
  from len len0 have grew: "dataset (state_of oc) \<noteq> dataset full_batch"
    by auto
  have f: "checkpoint_file demo_sys demo_params = ''/home/u/ex/tower_examples.geojson''"
    by (simp add: run_defs)
  have cap: "max_length demo_params = Some 10"
    by (simp add: demo_params_def)
  note part1 = checkpoint_writes [THEN conjunct1, THEN mp, OF conjI, OF step grew]
  from part1 have w: "geojson (state_of oc) =
        [Checkpoint_write ''/home/u/ex/tower_examples.geojson'' 4326 (dataset (state_of oc))]"
    by (simp add: len g0 f cap)
  have "\<exists>s. make_examples_run demo_env demo_sys (Frame [demo_asset]) (Frame demo_rows) demo_params
          = Inr (Next s) \<and> length (dataset s) = 2"
    by (simp add: run_defs)
  then obtain s where
    run: "make_examples_run demo_env demo_sys (Frame [demo_asset]) (Frame demo_rows) demo_params
          = Inr (Next s)" and len2: "length (dataset s) = 2"
    by blast
  note part2 = checkpoint_writes [THEN conjunct2, THEN mp, OF run]
  from part2 [THEN conjunct2, THEN conjunct1] len2 have "geojson s = []"
    by simp
  with step len len0 w run len2 show ?thesis
    by blast
qed

text \<open>
  \<^bold>\<open>Claim C8.\<close> When reading the block fails for an asset, the loop body ends in \<open>Next\<close> with the
  data set, the saved images and the writes unchanged (only the two random values are
  consumed), and the loop goes on with the remaining rows.
\<close>

theorem failed_read_skips_asset:
  assumes "crop_window y p ds row (draws s) = Inr (x, y', off_x, off_y)"
    and "transfer_pixels ds x y' (width p) (height p) = None"
  shows "\<exists>s'. process_row y p ds s row = Inr (Next s') \<and>
           dataset s' = dataset s \<and> images s' = images s \<and> geojson s' = geojson s \<and>
           process_rows y p ds s (row # rows) = process_rows y p ds s' rows"
proof -
  from assms have "process_row y p ds s row = Inr (Next (s\<lparr>draws := draws s + 2\<rparr>))"
    by (simp add: process_row_def)
  then show ?thesis by simp
qed

theorem failed_read_skips_asset_witness:
  "crop_window demo_sys demo_params demo_tile edge_asset (draws init_state) = Inr (- 6, - 6, - 1, - 1) \<and>
   transfer_pixels demo_tile (- 6) (- 6) (width demo_params) (height demo_params) = None \<and>
   (\<exists>s'. process_row demo_sys demo_params demo_tile init_state edge_asset = Inr (Next s') \<and>
      dataset s' = dataset init_state \<and> images s' = images init_state \<and>
      geojson s' = geojson init_state \<and>
      process_rows demo_sys demo_params demo_tile init_state [edge_asset, demo_asset] =
        process_rows demo_sys demo_params demo_tile s' [demo_asset])"
proof -
  have cw: "crop_window demo_sys demo_params demo_tile edge_asset (draws init_state)
      = Inr (- 6, - 6, - 1, - 1)"
    by (simp add: run_defs)
  have tp: "transfer_pixels demo_tile (- 6) (- 6) (width demo_params) (height demo_params) = None"
    by (simp add: run_defs)
  from failed_read_skips_asset [OF cw tp, of "[demo_asset]"] cw tp show ?thesis
    by (intro conjI)
qed

text \<open>
  \<^bold>\<open>Claim C10.\<close> Whenever \<^verbatim>\<open>make_examples\<close> returns, it returns \<^verbatim>\<open>None\<close>, both when the loops are
  exhausted and when the \<^verbatim>\<open>return\<close> statement of line 202 is reached.
\<close>

theorem make_examples_returns_None:
  assumes "make_examples e y assets coverage p = Inr (v, s)"
  shows "v = None \<and>
         (make_examples_run e y assets coverage p = Inr (Next s) \<or>
          make_examples_run e y assets coverage p = Inr (Returned None s))"
proof -
  from assms obtain oc where run: "make_examples_run e y assets coverage p = Inr oc"
    by (cases "make_examples_run e y assets coverage p") (simp_all add: make_examples_def)
  from make_examples_run_inv [OF run] have inv: "run_inv y p oc" .
  show ?thesis
  proof (cases oc)
    case (Next s1)
    with assms run show ?thesis by (simp add: make_examples_def)
  next
    case (Returned v1 s1)
    with assms run inv show ?thesis by (simp add: make_examples_def)
  qed
qed

theorem make_examples_returns_None_witness:
  "(\<exists>s. make_examples demo_env demo_sys (Frame [demo_asset]) (Frame demo_rows) demo_params
          = Inr (None, s) \<and>
        make_examples_run demo_env demo_sys (Frame [demo_asset]) (Frame demo_rows) demo_params
          = Inr (Next s)) \<and>
   (\<exists>s. make_examples demo_env demo_sys (Frame [demo_asset]) (Frame demo_rows)
          (demo_params\<lparr>max_length := Some 1\<rparr>) = Inr (None, s) \<and>
        make_examples_run demo_env demo_sys (Frame [demo_asset]) (Frame demo_rows)
          (demo_params\<lparr>max_length := Some 1\<rparr>) = Inr (Returned None s))"
proof -
  let ?p = "demo_params\<lparr>max_length := Some 1\<rparr>"
  have "\<exists>s. make_examples_run demo_env demo_sys (Frame [demo_asset]) (Frame demo_rows) demo_params
          = Inr (Next s)"
    by (simp add: run_defs)
  then obtain s where
    run: "make_examples_run demo_env demo_sys (Frame [demo_asset]) (Frame demo_rows) demo_params
          = Inr (Next s)"
    by blast
  then have "\<exists>v. make_examples demo_env demo_sys (Frame [demo_asset]) (Frame demo_rows) demo_params
          = Inr (v, s)"
    by (simp add: make_examples_def)
  then obtain v where
    ret: "make_examples demo_env demo_sys (Frame [demo_asset]) (Frame demo_rows) demo_params
          = Inr (v, s)"
    by blast
  from make_examples_returns_None [OF ret] ret run have first:
    "make_examples demo_env demo_sys (Frame [demo_asset]) (Frame demo_rows) demo_params
          = Inr (None, s)"
    by simp
  have "\<exists>v1 s1. make_examples_run demo_env demo_sys (Frame [demo_asset]) (Frame demo_rows) ?p
          = Inr (Returned v1 s1)"
    by (simp add: run_defs)
  then obtain v1 s1 where
    run1: "make_examples_run demo_env demo_sys (Frame [demo_asset]) (Frame demo_rows) ?p
          = Inr (Returned v1 s1)"
    by blast
  then have ret1: "make_examples demo_env demo_sys (Frame [demo_asset]) (Frame demo_rows) ?p
          = Inr (v1, s1)"
    by (simp add: make_examples_def)
  from make_examples_returns_None [OF ret1] ret1 run1 have second:
    "make_examples demo_env demo_sys (Frame [demo_asset]) (Frame demo_rows) ?p = Inr (None, s1) \<and>
     make_examples_run demo_env demo_sys (Frame [demo_asset]) (Frame demo_rows) ?p
          = Inr (Returned None s1)"
    by simp
  from first run second show ?thesis
    by blast
qed

end
